theory Spec2Isabelle
  imports Main "HOL-Library.Word"
begin

section \<open>Strings and patterns\<close>

text \<open>
  Strings are lists of 8-bit characters. The addresses the faucet accepts are ASCII, so
  \<open>String.prototype.toLowerCase\<close> is modelled on the ASCII letters: \<open>A\<close>..\<open>Z\<close> move to
  \<open>a\<close>..\<open>z\<close> and every other character stays.
\<close>

definition lower_char :: "char \<Rightarrow> char" where
  "lower_char c =
     (if (65::nat) \<le> of_char c \<and> of_char c \<le> (90::nat)
      then char_of (of_char c + (32::nat)) else c)"

definition toLowerCase :: "string \<Rightarrow> string" where
  "toLowerCase s = map lower_char s"

text \<open>
  The form component validates with the regular expression literal
  \<^verbatim>\<open>/^0x[a-fA-F0-9]{40}$/\<close>. The fragment of regular expressions it needs: a pattern
  anchored at both ends (\<^verbatim>\<open>^\<close> and \<^verbatim>\<open>$\<close>, no \<^verbatim>\<open>m\<close> flag, so \<^verbatim>\<open>$\<close> is the end of the
  input) that is a sequence of pieces, each a character class repeated an exact number
  of times. A class is a union of single characters and of ranges of character codes.
\<close>

datatype charset = Single char | Span char char

datatype piece = Piece "charset list" nat

type_synonym pattern = "piece list"

fun in_charset :: "charset \<Rightarrow> char \<Rightarrow> bool" where
  "in_charset (Single a) c = (c = a)"
| "in_charset (Span lo hi) c =
     ((of_char lo :: nat) \<le> of_char c \<and> (of_char c :: nat) \<le> of_char hi)"

definition in_class :: "charset list \<Rightarrow> char \<Rightarrow> bool" where
  "in_class cs c = list_ex (\<lambda>r. in_charset r c) cs"

fun regex_test :: "pattern \<Rightarrow> string \<Rightarrow> bool" where
  "regex_test [] s = (s = [])"
| "regex_test (Piece cs n # ps) s =
     (if n = 0 then regex_test ps s
      else case s of
             [] \<Rightarrow> False
           | c # rest \<Rightarrow> in_class cs c \<and> regex_test (Piece cs (n - 1) # ps) rest)"

definition address_pattern :: pattern where
  "address_pattern =
     [Piece [Single (CHR ''0'')] 1,
      Piece [Single (CHR ''x'')] 1,
      Piece [Span (CHR ''a'') (CHR ''f''), Span (CHR ''A'') (CHR ''F''),
             Span (CHR ''0'') (CHR ''9'')] 40]"

text \<open>\<open>isValidAddress\<close> of the form component (both copies of \<open>App\<close> have the same one).\<close>

definition App_isValidAddress :: "string \<Rightarrow> bool" where
  "App_isValidAddress address = regex_test address_pattern address"

text \<open>
  The address shape in the specification's words: the prefix \<open>0x\<close> followed by exactly
  40 hexadecimal digits, of either letter case.
\<close>

definition hex_digit :: "char \<Rightarrow> bool" where
  "hex_digit c = (c \<in> set ''0123456789abcdefABCDEF'')"

definition address_shape :: "string \<Rightarrow> bool" where
  "address_shape s =
     (length s = 42 \<and> take 2 s = ''0x'' \<and> list_all hex_digit (drop 2 s))"

text \<open>The decimal notation of a natural number.\<close>

definition digit_char :: "nat \<Rightarrow> char" where
  "digit_char d = char_of (48 + d)"

fun decimal :: "nat \<Rightarrow> string" where
  "decimal n = (if n < 10 then [digit_char n] else decimal (n div 10) @ [digit_char (n mod 10)])"

declare decimal.simps [simp del]

section \<open>Addresses in the ethers library\<close>

text \<open>
  The server validates with \<open>ethers.isAddress\<close> of the ethers library, version 6, whose
  code is not part of the repository. The handler below takes the library's verdict as a
  parameter; this section models the library's own rules, for the concrete requests:
  \<open>isAddress\<close> is true when \<open>getAddress\<close> does not throw, and \<open>getAddress\<close> accepts 40
  hexadecimal digits with or without the prefix \<open>0x\<close>, refusing a spelling of mixed
  letter case unless it is the EIP-55 checksum spelling, and accepts an ICAP address with
  a correct IBAN checksum.
\<close>

unbundle bit_operations_syntax

subsection \<open>Keccak-256\<close>

text \<open>
  The state of the permutation is 25 lanes of 64 bits, lane \<open>(x, y)\<close> at index
  \<open>x + 5 * y\<close>. Bytes are natural numbers below 256.
\<close>

type_synonym lane = "64 word"

definition rotation_offsets :: "nat list" where
  "rotation_offsets =
     [0, 1, 62, 28, 27,
      36, 44, 6, 55, 20,
      3, 10, 43, 25, 39,
      41, 45, 15, 21, 8,
      18, 2, 61, 56, 14]"

definition round_constants :: "lane list" where
  "round_constants =
     [0x0000000000000001, 0x0000000000008082, 0x800000000000808A, 0x8000000080008000,
      0x000000000000808B, 0x0000000080000001, 0x8000000080008081, 0x8000000000008009,
      0x000000000000008A, 0x0000000000000088, 0x0000000080008009, 0x000000008000000A,
      0x000000008000808B, 0x800000000000008B, 0x8000000000008089, 0x8000000000008003,
      0x8000000000008002, 0x8000000000000080, 0x000000000000800A, 0x800000008000000A,
      0x8000000080008081, 0x8000000000008080, 0x0000000080000001, 0x8000000080008008]"

definition theta :: "lane list \<Rightarrow> lane list" where
  "theta A =
     (let C = map (\<lambda>x. A ! x XOR A ! (x + 5) XOR A ! (x + 10) XOR A ! (x + 15) XOR A ! (x + 20))
                [0..<5];
          D = map (\<lambda>x. C ! ((x + 4) mod 5) XOR word_rotl 1 (C ! ((x + 1) mod 5))) [0..<5]
      in map (\<lambda>i. A ! i XOR D ! (i mod 5)) [0..<25])"

text \<open>
  The steps rho and pi move lane \<open>(x, y)\<close>, rotated, to \<open>(y, 2 * x + 3 * y)\<close>; read from
  the target \<open>(X, Y)\<close>, the source is \<open>((X + 3 * Y) mod 5, X)\<close>.
\<close>

definition rho_pi :: "lane list \<Rightarrow> lane list" where
  "rho_pi A =
     map (\<lambda>i. let X = i mod 5; Y = i div 5; src = (X + 3 * Y) mod 5 + 5 * X
              in word_rotl (rotation_offsets ! src) (A ! src)) [0..<25]"

definition chi :: "lane list \<Rightarrow> lane list" where
  "chi B =
     map (\<lambda>i. let x = i mod 5; row = 5 * (i div 5)
              in B ! i XOR (NOT (B ! ((x + 1) mod 5 + row)) AND B ! ((x + 2) mod 5 + row)))
       [0..<25]"

definition iota :: "lane \<Rightarrow> lane list \<Rightarrow> lane list" where
  "iota rc A = A[0 := A ! 0 XOR rc]"

definition keccak_round :: "lane \<Rightarrow> lane list \<Rightarrow> lane list" where
  "keccak_round rc A = iota rc (chi (rho_pi (theta A)))"

definition keccak_f :: "lane list \<Rightarrow> lane list" where
  "keccak_f A = fold keccak_round round_constants A"

text \<open>
  The sponge with a rate of 136 bytes: the message is padded with the byte \<open>0x01\<close>, zeros
  and the top bit of the last byte of the block, each block is added to the first 17 lanes
  (bytes in little-endian order) and permuted, and the digest is the first 32 bytes.
\<close>

definition keccak_pad :: "nat list \<Rightarrow> nat list" where
  "keccak_pad msg =
     (let fill = 135 - length msg mod 136;
          padded = msg @ [1] @ replicate fill 0
      in butlast padded @ [last padded + 128])"

definition lane_of_bytes :: "nat list \<Rightarrow> lane" where
  "lane_of_bytes bs = foldr (\<lambda>b w. of_nat b + 256 * w) bs 0"

definition bytes_of_lane :: "lane \<Rightarrow> nat list" where
  "bytes_of_lane w = map (\<lambda>j. unat (drop_bit (8 * j) w AND 255)) [0..<8]"

definition absorb :: "nat list \<Rightarrow> lane list \<Rightarrow> lane list" where
  "absorb block A =
     keccak_f (map (\<lambda>i. if i < 17 then A ! i XOR lane_of_bytes (take 8 (drop (8 * i) block))
                        else A ! i) [0..<25])"

definition keccak256 :: "nat list \<Rightarrow> nat list" where
  "keccak256 msg =
     (let padded = keccak_pad msg;
          blocks = map (\<lambda>k. take 136 (drop (136 * k) padded)) [0..<length padded div 136];
          A = fold absorb blocks (replicate 25 0)
      in concat (map bytes_of_lane (take 4 A)))"

subsection \<open>\<open>getAddress\<close> and \<open>isAddress\<close>\<close>

definition upper_char :: "char \<Rightarrow> char" where
  "upper_char c =
     (if (97::nat) \<le> of_char c \<and> of_char c \<le> (122::nat)
      then char_of (of_char c - (32::nat)) else c)"

definition toUpperCase :: "string \<Rightarrow> string" where
  "toUpperCase s = map upper_char s"

text \<open>
  \<open>getChecksumAddress\<close>: the characters after the prefix in lower case; the first 40 are
  hashed as ASCII, and character \<open>i\<close> is put in upper case when nibble \<open>i\<close> of the digest
  is 8 or more. The library calls it with at least 40 characters after the prefix.
\<close>

definition digest_nibble :: "nat list \<Rightarrow> nat \<Rightarrow> nat" where
  "digest_nibble hashed i =
     (if even i then hashed ! (i div 2) div 16 else hashed ! (i div 2) mod 16)"

definition getChecksumAddress :: "string \<Rightarrow> string" where
  "getChecksumAddress address =
     (let chars = drop 2 (toLowerCase address);
          hashed = keccak256 (map of_char (take 40 chars))
      in ''0x''
         @ map (\<lambda>i. if 8 \<le> digest_nibble hashed i then upper_char (chars ! i) else chars ! i)
             [0..<40]
         @ drop 40 chars)"

text \<open>
  \<open>ibanChecksum\<close>: the characters after the country code and the checksum, then the
  country code and \<open>00\<close>, each letter replaced by its two-digit number from 10 to 35; that
  decimal number is reduced modulo 97 (the library does it in blocks of 15 digits, here
  digit by digit), and the checksum is 98 minus the remainder, in two digits.
\<close>

definition ibanLookup :: "char \<Rightarrow> string" where
  "ibanLookup c =
     (let n = (of_char c :: nat)
      in if 48 \<le> n \<and> n \<le> 57 then [c]
         else if 65 \<le> n \<and> n \<le> 90 then decimal (n - 55)
         else [])"

definition mod97 :: "string \<Rightarrow> nat" where
  "mod97 digits = foldl (\<lambda>r c. (10 * r + (of_char c - 48)) mod 97) 0 digits"

definition ibanChecksum :: "string \<Rightarrow> string" where
  "ibanChecksum address =
     (let upper = toUpperCase address;
          expanded = concat (map ibanLookup (drop 4 upper @ take 2 upper @ ''00''));
          checksum = decimal (98 - mod97 expanded)
      in if length checksum < 2 then ''0'' @ checksum else checksum)"

text \<open>
  The patterns of \<open>getAddress\<close>: \<^verbatim>\<open>/^(0x)?[0-9a-fA-F]{40}$/\<close>, with and without its
  optional group, and \<^verbatim>\<open>/^XE[0-9]{2}[0-9A-Za-z]{30,31}$/\<close>, with 30 and with 31
  characters.
\<close>

definition hex40 :: pattern where
  "hex40 =
     [Piece [Span (CHR ''0'') (CHR ''9''), Span (CHR ''a'') (CHR ''f''),
             Span (CHR ''A'') (CHR ''F'')] 40]"

definition prefixed_hex40 :: pattern where
  "prefixed_hex40 = Piece [Single (CHR ''0'')] 1 # Piece [Single (CHR ''x'')] 1 # hex40"

definition icap :: "nat \<Rightarrow> pattern" where
  "icap n =
     [Piece [Single (CHR ''X'')] 1, Piece [Single (CHR ''E'')] 1,
      Piece [Span (CHR ''0'') (CHR ''9'')] 2,
      Piece [Span (CHR ''0'') (CHR ''9''), Span (CHR ''A'') (CHR ''Z''),
             Span (CHR ''a'') (CHR ''z'')] n]"

text \<open>
  \<^verbatim>\<open>/([A-F].*[a-f])|([a-f].*[A-F])/\<close> on a string without line breaks: some letter
  \<open>A\<close>..\<open>F\<close> and some letter \<open>a\<close>..\<open>f\<close> occur in it, in either order.
\<close>

definition mixed_case :: "string \<Rightarrow> bool" where
  "mixed_case s =
     (list_ex (in_class [Span (CHR ''A'') (CHR ''F'')]) s
      \<and> list_ex (in_class [Span (CHR ''a'') (CHR ''f'')]) s)"

text \<open>
  \<open>isAddress\<close>, total on strings: every \<open>throw\<close> of \<open>getAddress\<close> is the verdict
  \<open>false\<close>. What \<open>getAddress\<close> computes after its checks cannot throw.
\<close>

definition ethers_isAddress :: "string \<Rightarrow> bool option" where
  "ethers_isAddress value =
     Some (if regex_test prefixed_hex40 value \<or> regex_test hex40 value then
             let address = (if take 2 value = ''0x'' then value else ''0x'' @ value)
             in \<not> mixed_case address \<or> getChecksumAddress address = address
           else if regex_test (icap 30) value \<or> regex_test (icap 31) value then
             take 2 (drop 2 value) = ibanChecksum value
           else False)"

section \<open>The chain client\<close>

text \<open>
  Amounts are in wei, non-negative big integers. \<open>ethers.parseEther\<close> reads a decimal
  amount of ether, one ether being \<open>10 ^ 18\<close> wei.
\<close>

type_synonym wei = nat

definition ether :: wei where
  "ether = 10 ^ 18"

text \<open>
  A call into the chain client is awaited: the promise resolves with a value, or rejects
  with an error (of which the handler reads \<open>error.code\<close> only, absent on errors that
  have none), or never settles.
\<close>

datatype 'a outcome = Resolved 'a | Rejected "string option" | Pending

text \<open>
  What the outside world answers during one request: the verdict of \<open>ethers.isAddress\<close>
  (\<open>None\<close> when it throws), the two readings of \<open>Date.now()\<close>, the two balances, the
  broadcast (resolving with the transaction hash) and the confirmation wait (resolving
  with the receipt's block number, or with a null receipt).
\<close>

record chain =
  isAddress :: "string \<Rightarrow> bool option"
  clockCheck :: int
  faucetBalance :: "wei outcome"
  recipientBalance :: "wei outcome"
  sendResult :: "string outcome"
  clockUpdate :: int
  waitResult :: "nat option outcome"

text \<open>
  Modelled from the spec: \<open>ethers.formatEther\<close> belongs to the external ethers library and
  is not part of the repository. It renders an amount of wei as a decimal number of ether:
  the whole part, a point and the 18 fractional digits without their trailing zeros, of
  which one always stays. The specification expects the fixed amount to read \<open>0.1\<close>.
\<close>

definition formatEther :: "wei \<Rightarrow> string" where
  "formatEther v =
     (let whole = decimal (v div ether);
          frac = map (\<lambda>i. digit_char (v mod ether div 10 ^ (17 - i) mod 10)) [0..<18];
          kept = rev (dropWhile (\<lambda>c. c = CHR ''0'') (rev frac))
      in whole @ ''.'' @ (if kept = [] then ''0'' else kept))"

section \<open>The faucet server\<close>

text \<open>The map \<open>addressCooldowns\<close>, from lower-cased address to a \<open>Date.now()\<close> reading.\<close>

type_synonym cooldowns = "string \<rightharpoonup> int"

text \<open>
  The configuration: the cooldown in milliseconds, and \<open>parseEther('0.1')\<close>,
  \<open>parseEther('1.0')\<close> and \<open>parseEther('5.0')\<close> in wei.
\<close>

definition ADDRESS_COOLDOWN :: int where
  "ADDRESS_COOLDOWN = 60 * 60 * 1000"

definition FAUCET_AMOUNT :: wei where
  "FAUCET_AMOUNT = ether div 10"

definition MIN_BALANCE :: wei where
  "MIN_BALANCE = ether"

definition maxRecipientBalance :: wei where
  "maxRecipientBalance = 5 * ether"

definition isValidAddress :: "chain \<Rightarrow> string \<Rightarrow> bool" where
  "isValidAddress ch address =
     (case isAddress ch address of Some b \<Rightarrow> b | None \<Rightarrow> False)"

text \<open>
  \<open>lastRequest && ...\<close> is a truthiness test: a missing entry (\<open>undefined\<close>) and the
  number \<open>0\<close> both fail it.
\<close>

definition checkAddressCooldown :: "cooldowns \<Rightarrow> int \<Rightarrow> string \<Rightarrow> bool" where
  "checkAddressCooldown addressCooldowns now address =
     (case addressCooldowns (toLowerCase address) of
        None \<Rightarrow> True
      | Some lastRequest \<Rightarrow>
          if lastRequest \<noteq> 0 \<and> now - lastRequest < ADDRESS_COOLDOWN then False else True)"

definition updateAddressCooldown :: "cooldowns \<Rightarrow> int \<Rightarrow> string \<Rightarrow> cooldowns" where
  "updateAddressCooldown addressCooldowns now address =
     addressCooldowns(toLowerCase address \<mapsto> now)"

text \<open>Responses: the HTTP status and the JSON body.\<close>

datatype body =
  ErrorBody string
  | SuccessBody (txHash: string) (amount: string) (blockNumber: nat)

datatype response = Response nat body

text \<open>The \<open>catch\<close> block of the handler.\<close>

definition handle_error :: "string option \<Rightarrow> response" where
  "handle_error code =
     (if code = Some ''INSUFFICIENT_FUNDS''
      then Response 503 (ErrorBody ''Faucet has insufficient funds'')
      else if code = Some ''NETWORK_ERROR''
      then Response 502 (ErrorBody ''Network error. Please try again later.'')
      else Response 500 (ErrorBody ''Internal server error''))"

text \<open>
  What a request does to the world, in order: the calls into the chain client and the
  writes to the cooldown map.
\<close>

datatype account = FaucetWallet | Recipient string

datatype action =
  GetBalance account
  | SendTransaction string wei nat
  | SetCooldown string int
  | WaitConfirm string

text \<open>
  The result of handling one request: the cooldown map afterwards, the actions performed
  and the response, \<open>None\<close> when an awaited promise never settles and no response is sent.
\<close>

record run =
  store :: cooldowns
  trace :: "action list"
  reply :: "response option"

definition replied :: "cooldowns \<Rightarrow> action list \<Rightarrow> response \<Rightarrow> run" where
  "replied m tr r = \<lparr>store = m, trace = tr, reply = Some r\<rparr>"

definition hanging :: "cooldowns \<Rightarrow> action list \<Rightarrow> run" where
  "hanging m tr = \<lparr>store = m, trace = tr, reply = None\<rparr>"

text \<open>
  The handler of \<open>POST /api/faucet\<close>, for a request that the per-IP limiter let through.
  The body's \<open>address\<close> is a string or missing, as the endpoint's interface has it;
  \<open>!address\<close> holds of a missing address and of the empty string. Each \<open>await\<close> is a case
  distinction on the outcome of the awaited call: a rejection is thrown into the \<open>catch\<close>
  block, and a promise that never settles ends the run without a response. Reading
  \<open>receipt.blockNumber\<close> of a null receipt throws a \<open>TypeError\<close>, an error without a code.
\<close>

definition faucet_post :: "chain \<Rightarrow> cooldowns \<Rightarrow> string option \<Rightarrow> run" where
  "faucet_post ch addressCooldowns req_address =
     (case req_address of
        None \<Rightarrow> replied addressCooldowns [] (Response 400 (ErrorBody ''Address is required''))
      | Some address \<Rightarrow>
        if address = [] then
          replied addressCooldowns [] (Response 400 (ErrorBody ''Address is required''))
        else if \<not> isValidAddress ch address then
          replied addressCooldowns [] (Response 400 (ErrorBody ''Invalid Ethereum address''))
        else if \<not> checkAddressCooldown addressCooldowns (clockCheck ch) address then
          replied addressCooldowns [] (Response 429 (ErrorBody
            ''This address has already requested funds recently. Please wait 1 hour.''))
        else
          let t1 = [GetBalance FaucetWallet] in
          (case faucetBalance ch of
            Pending \<Rightarrow> hanging addressCooldowns t1
          | Rejected code \<Rightarrow> replied addressCooldowns t1 (handle_error code)
          | Resolved balance \<Rightarrow>
            if balance < MIN_BALANCE then
              replied addressCooldowns t1 (Response 503 (ErrorBody
                ''Faucet is running low on funds. Please contact the administrator.''))
            else
              let t2 = t1 @ [GetBalance (Recipient address)] in
              (case recipientBalance ch of
                Pending \<Rightarrow> hanging addressCooldowns t2
              | Rejected code \<Rightarrow> replied addressCooldowns t2 (handle_error code)
              | Resolved recipient \<Rightarrow>
                if recipient > maxRecipientBalance then
                  replied addressCooldowns t2 (Response 400 (ErrorBody
                    ''Recipient address already has sufficient funds''))
                else
                  let t3 = t2 @ [SendTransaction address FAUCET_AMOUNT 21000] in
                  (case sendResult ch of
                    Pending \<Rightarrow> hanging addressCooldowns t3
                  | Rejected code \<Rightarrow> replied addressCooldowns t3 (handle_error code)
                  | Resolved hash \<Rightarrow>
                    let updated = updateAddressCooldown addressCooldowns (clockUpdate ch) address;
                        t4 = t3 @ [SetCooldown (toLowerCase address) (clockUpdate ch),
                                   WaitConfirm hash]
                    in (case waitResult ch of
                         Pending \<Rightarrow> hanging updated t4
                       | Rejected code \<Rightarrow> replied updated t4 (handle_error code)
                       | Resolved receipt \<Rightarrow>
                           (case receipt of
                              None \<Rightarrow> replied updated t4 (handle_error None)
                            | Some block \<Rightarrow>
                                replied updated t4 (Response 200
                                  (SuccessBody hash (formatEther FAUCET_AMOUNT) block))))))))"

section \<open>The handler between its awaits\<close>

text \<open>
  The handler is an \<open>async\<close> function: it runs without interruption up to an \<open>await\<close>,
  and other requests may run until the awaited promise settles. A program counter names
  the \<open>await\<close> at which a request is suspended, together with the local variables that
  are live there (\<open>address\<close>, and the hash of \<open>transaction\<close>). \<open>step\<close> runs one
  request from one suspension point to the next and returns the cooldown map, the actions
  of that segment and the new program counter. A request whose awaited promise never
  settles stays where it is.
\<close>

datatype pc =
  Entry
  | AwaitFaucetBalance string
  | AwaitRecipientBalance string
  | AwaitSend string
  | AwaitConfirm string string
  | Replied response

fun step :: "chain \<Rightarrow> string option \<Rightarrow> cooldowns \<Rightarrow> pc \<Rightarrow> cooldowns \<times> action list \<times> pc" where
  "step ch req_address m Entry =
     (case req_address of
        None \<Rightarrow> (m, [], Replied (Response 400 (ErrorBody ''Address is required'')))
      | Some address \<Rightarrow>
        if address = [] then
          (m, [], Replied (Response 400 (ErrorBody ''Address is required'')))
        else if \<not> isValidAddress ch address then
          (m, [], Replied (Response 400 (ErrorBody ''Invalid Ethereum address'')))
        else if \<not> checkAddressCooldown m (clockCheck ch) address then
          (m, [], Replied (Response 429 (ErrorBody
            ''This address has already requested funds recently. Please wait 1 hour.'')))
        else (m, [GetBalance FaucetWallet], AwaitFaucetBalance address))"
| "step ch req_address m (AwaitFaucetBalance address) =
     (case faucetBalance ch of
        Pending \<Rightarrow> (m, [], AwaitFaucetBalance address)
      | Rejected code \<Rightarrow> (m, [], Replied (handle_error code))
      | Resolved balance \<Rightarrow>
          if balance < MIN_BALANCE then
            (m, [], Replied (Response 503 (ErrorBody
              ''Faucet is running low on funds. Please contact the administrator.'')))
          else (m, [GetBalance (Recipient address)], AwaitRecipientBalance address))"
| "step ch req_address m (AwaitRecipientBalance address) =
     (case recipientBalance ch of
        Pending \<Rightarrow> (m, [], AwaitRecipientBalance address)
      | Rejected code \<Rightarrow> (m, [], Replied (handle_error code))
      | Resolved recipient \<Rightarrow>
          if recipient > maxRecipientBalance then
            (m, [], Replied (Response 400 (ErrorBody
              ''Recipient address already has sufficient funds'')))
          else (m, [SendTransaction address FAUCET_AMOUNT 21000], AwaitSend address))"
| "step ch req_address m (AwaitSend address) =
     (case sendResult ch of
        Pending \<Rightarrow> (m, [], AwaitSend address)
      | Rejected code \<Rightarrow> (m, [], Replied (handle_error code))
      | Resolved hash \<Rightarrow>
          (updateAddressCooldown m (clockUpdate ch) address,
           [SetCooldown (toLowerCase address) (clockUpdate ch), WaitConfirm hash],
           AwaitConfirm address hash))"
| "step ch req_address m (AwaitConfirm address hash) =
     (case waitResult ch of
        Pending \<Rightarrow> (m, [], AwaitConfirm address hash)
      | Rejected code \<Rightarrow> (m, [], Replied (handle_error code))
      | Resolved receipt \<Rightarrow>
          (case receipt of
             None \<Rightarrow> (m, [], Replied (handle_error None))
           | Some block \<Rightarrow>
               (m, [], Replied (Response 200
                  (SuccessBody hash (formatEther FAUCET_AMOUNT) block)))))"
| "step ch req_address m (Replied r) = (m, [], Replied r)"

text \<open>One request running alone: \<open>steps n\<close> takes \<open>n\<close> segments in a row.\<close>

fun steps :: "nat \<Rightarrow> chain \<Rightarrow> string option \<Rightarrow> cooldowns \<times> action list \<times> pc
    \<Rightarrow> cooldowns \<times> action list \<times> pc" where
  "steps 0 ch req_address s = s"
| "steps (Suc n) ch req_address (m, tr, p) =
     (case step ch req_address m p of
        (m', acts, p') \<Rightarrow> steps n ch req_address (m', tr @ acts, p'))"

definition reply_of :: "pc \<Rightarrow> response option" where
  "reply_of p = (case p of Replied r \<Rightarrow> Some r | _ \<Rightarrow> None)"

definition run_of :: "cooldowns \<times> action list \<times> pc \<Rightarrow> run" where
  "run_of s = (case s of (m, tr, p) \<Rightarrow> \<lparr>store = m, trace = tr, reply = reply_of p\<rparr>)"

text \<open>
  Several requests in flight over the one shared cooldown map. \<open>turn reqs i\<close> lets request
  \<open>i\<close> run its next segment; a schedule is the order in which the event loop resumes the
  requests. The journal keeps every action with the index of the request that did it.
\<close>

record request =
  env :: chain
  posted :: "string option"

record server =
  shared :: cooldowns
  journal :: "(nat \<times> action) list"
  pcs :: "pc list"

definition boot :: "cooldowns \<Rightarrow> request list \<Rightarrow> server" where
  "boot m reqs = \<lparr>shared = m, journal = [], pcs = map (\<lambda>_. Entry) reqs\<rparr>"

definition turn :: "request list \<Rightarrow> nat \<Rightarrow> server \<Rightarrow> server" where
  "turn reqs i s =
     (if i < length reqs \<and> i < length (pcs s) then
        (case step (env (reqs ! i)) (posted (reqs ! i)) (shared s) (pcs s ! i) of
           (m, acts, p) \<Rightarrow>
             \<lparr>shared = m, journal = journal s @ map (Pair i) acts, pcs = (pcs s)[i := p]\<rparr>)
      else s)"

definition exec :: "request list \<Rightarrow> nat list \<Rightarrow> server \<Rightarrow> server" where
  "exec reqs schedule s = fold (turn reqs) schedule s"

section \<open>Observations on a run\<close>

text \<open>A transfer is attempted when \<open>sendTransaction\<close> is called.\<close>

fun is_transfer :: "action \<Rightarrow> bool" where
  "is_transfer (SendTransaction to v g) = True"
| "is_transfer _ = False"

definition transfers :: "(nat \<times> action) list \<Rightarrow> (nat \<times> action) list" where
  "transfers j = filter (\<lambda>e. is_transfer (snd e)) j"

text \<open>
  A request is admitted when it carries the address \<open>a\<close> and passes the synchronous checks:
  the address is present, valid and not cooling down.
\<close>

definition admitted :: "chain \<Rightarrow> cooldowns \<Rightarrow> string option \<Rightarrow> string \<Rightarrow> bool" where
  "admitted ch m req a =
     (req = Some a \<and> a \<noteq> [] \<and> isValidAddress ch a \<and> checkAddressCooldown m (clockCheck ch) a)"

text \<open>The five responses with which the handler turns a request away before any transfer.\<close>

definition early_rejections :: "response list" where
  "early_rejections =
     [Response 400 (ErrorBody ''Address is required''),
      Response 400 (ErrorBody ''Invalid Ethereum address''),
      Response 429 (ErrorBody
        ''This address has already requested funds recently. Please wait 1 hour.''),
      Response 503 (ErrorBody
        ''Faucet is running low on funds. Please contact the administrator.''),
      Response 400 (ErrorBody ''Recipient address already has sufficient funds'')]"

section \<open>Concrete requests\<close>

text \<open>
  The address of the specification's scenario has 38 hexadecimal digits after its prefix.
  \<open>padded_address\<close> is that address with two more zeros, 40 digits in all, in the
  scenario's spelling of mixed letter case, which is not the checksum spelling of the
  address; \<open>plain_address\<close> is the same address in lower case, and \<open>bare_address\<close> the
  lower-case address without its prefix.
\<close>

definition scenario_address :: string where
  "scenario_address = ''0x742d35Cc6635Bb000000000000000000000000''"

definition padded_address :: string where
  "padded_address = ''0x742d35Cc6635Bb00000000000000000000000000''"

definition plain_address :: string where
  "plain_address = ''0x742d35cc6635bb00000000000000000000000000''"

definition bare_address :: string where
  "bare_address = ''742d35cc6635bb00000000000000000000000000''"

definition no_cooldowns :: cooldowns where
  "no_cooldowns = Map.empty"

text \<open>
  A chain on which everything succeeds: a reserve of 10 ETH, a recipient without funds, a
  broadcast that resolves and a confirmation in block 1234.
\<close>

definition scenario_chain :: chain where
  "scenario_chain =
     \<lparr>isAddress = ethers_isAddress, clockCheck = 1700000000000,
      faucetBalance = Resolved (10 * ether), recipientBalance = Resolved 0,
      sendResult = Resolved ''0xfeed'', clockUpdate = 1700000000500,
      waitResult = Resolved (Some 1234)\<rparr>"

definition second_chain :: chain where
  "second_chain =
     scenario_chain\<lparr>sendResult := Resolved ''0xbeef'', clockUpdate := 1700000000600,
       waitResult := Resolved (Some 1235)\<rparr>"

text \<open>Two requests for the same address, in flight together.\<close>

definition twin_requests :: "request list" where
  "twin_requests =
     [\<lparr>env = scenario_chain, posted = Some plain_address\<rparr>,
      \<lparr>env = second_chain, posted = Some plain_address\<rparr>]"

section \<open>Facts about the address pattern\<close>

lemma of_char_is:
  assumes "k < 256"
  shows "(of_char c = (k::nat)) = (c = char_of k)"
proof
  assume "of_char c = k"
  then have "char_of k = char_of (of_char c :: nat)"
    by simp
  then show "c = char_of k"
    by simp
next
  assume "c = char_of k"
  with assms show "of_char c = k"
    by simp
qed

lemma digit_codes:
  "char_of (48::nat) = CHR ''0''" "char_of (49::nat) = CHR ''1''" "char_of (50::nat) = CHR ''2''"
  "char_of (51::nat) = CHR ''3''" "char_of (52::nat) = CHR ''4''" "char_of (53::nat) = CHR ''5''"
  "char_of (54::nat) = CHR ''6''" "char_of (55::nat) = CHR ''7''" "char_of (56::nat) = CHR ''8''"
  "char_of (57::nat) = CHR ''9''"
  by code_simp+

lemma letter_codes:
  "char_of (97::nat) = CHR ''a''" "char_of (98::nat) = CHR ''b''" "char_of (99::nat) = CHR ''c''"
  "char_of (100::nat) = CHR ''d''" "char_of (101::nat) = CHR ''e''" "char_of (102::nat) = CHR ''f''"
  "char_of (65::nat) = CHR ''A''" "char_of (66::nat) = CHR ''B''" "char_of (67::nat) = CHR ''C''"
  "char_of (68::nat) = CHR ''D''" "char_of (69::nat) = CHR ''E''" "char_of (70::nat) = CHR ''F''"
  by code_simp+

lemma hex_class:
  "in_class [Span (CHR ''a'') (CHR ''f''), Span (CHR ''A'') (CHR ''F''),
             Span (CHR ''0'') (CHR ''9'')] c = hex_digit c"
proof -
  define n :: nat where "n = of_char c"
  have lower: "(97 \<le> n \<and> n \<le> 102) =
      (n = 97 \<or> n = 98 \<or> n = 99 \<or> n = 100 \<or> n = 101 \<or> n = 102)"
    by arith
  have upper: "(65 \<le> n \<and> n \<le> 70) = (n = 65 \<or> n = 66 \<or> n = 67 \<or> n = 68 \<or> n = 69 \<or> n = 70)"
    by arith
  have digit: "(48 \<le> n \<and> n \<le> 57) =
      (n = 48 \<or> n = 49 \<or> n = 50 \<or> n = 51 \<or> n = 52 \<or> n = 53 \<or> n = 54 \<or> n = 55 \<or> n = 56 \<or> n = 57)"
    by arith
  have "in_class [Span (CHR ''a'') (CHR ''f''), Span (CHR ''A'') (CHR ''F''),
                  Span (CHR ''0'') (CHR ''9'')] c
      = ((97 \<le> n \<and> n \<le> 102) \<or> (65 \<le> n \<and> n \<le> 70) \<or> (48 \<le> n \<and> n \<le> 57))"
    by (simp add: in_class_def n_def)
  also have "\<dots> = ((48 \<le> n \<and> n \<le> 57) \<or> (97 \<le> n \<and> n \<le> 102) \<or> (65 \<le> n \<and> n \<le> 70))"
    by blast
  also have "\<dots> = hex_digit c"
    unfolding lower upper digit unfolding n_def
    by (simp add: of_char_is hex_digit_def digit_codes letter_codes disj_ac)
  finally show ?thesis .
qed

lemma regex_test_zero [simp]: "regex_test (Piece cs 0 # ps) s = regex_test ps s"
  by simp

lemma regex_test_Suc_Nil [simp]: "regex_test (Piece cs (Suc n) # ps) [] = False"
  by simp

lemma regex_test_Suc_Cons [simp]:
  "regex_test (Piece cs (Suc n) # ps) (c # s) = (in_class cs c \<and> regex_test (Piece cs n # ps) s)"
  by simp

declare regex_test.simps(2) [simp del]

lemma regex_test_piece:
  "regex_test (Piece cs n # ps) s =
     (n \<le> length s \<and> list_all (in_class cs) (take n s) \<and> regex_test ps (drop n s))"
proof (induction n arbitrary: s)
  case 0
  show ?case by simp
next
  case (Suc n)
  show ?case
  proof (cases s)
    case Nil
    then show ?thesis by simp
  next
    case (Cons c t)
    then show ?thesis using Suc.IH [of t] by auto
  qed
qed

lemma single_class: "in_class [Single a] c = (c = a)"
  by (simp add: in_class_def)

lemma hex_class_ext:
  "in_class [Span (CHR ''a'') (CHR ''f''), Span (CHR ''A'') (CHR ''F''),
             Span (CHR ''0'') (CHR ''9'')] = hex_digit"
  by (rule ext) (rule hex_class)

lemma address_pattern_shape: "regex_test address_pattern s = address_shape s"
proof -
  have "regex_test address_pattern s =
      (1 \<le> length s \<and> hd s = CHR ''0'' \<and> 1 \<le> length (tl s) \<and> hd (tl s) = CHR ''x''
        \<and> 40 \<le> length (drop 2 s) \<and> list_all hex_digit (take 40 (drop 2 s)) \<and> drop 42 s = [])"
    unfolding address_pattern_def regex_test_piece hex_class_ext
    apply (cases s; simp add: single_class)
    subgoal for c t
      by (cases t) (auto simp: single_class)
    done
  also have "\<dots> = address_shape s"
    unfolding address_shape_def
    apply (cases s, simp)
    subgoal for c t
      apply (cases t, simp)
      by auto
    done
  finally show ?thesis .
qed

section \<open>Facts about the library's verdict\<close>

lemma library_hex_class:
  "in_class [Span (CHR ''0'') (CHR ''9''), Span (CHR ''a'') (CHR ''f''),
             Span (CHR ''A'') (CHR ''F'')] = hex_digit"
proof (rule ext)
  fix c
  have "in_class [Span (CHR ''0'') (CHR ''9''), Span (CHR ''a'') (CHR ''f''),
                  Span (CHR ''A'') (CHR ''F'')] c
      = in_class [Span (CHR ''a'') (CHR ''f''), Span (CHR ''A'') (CHR ''F''),
                  Span (CHR ''0'') (CHR ''9'')] c"
    by (auto simp add: in_class_def)
  then show "in_class [Span (CHR ''0'') (CHR ''9''), Span (CHR ''a'') (CHR ''f''),
                       Span (CHR ''A'') (CHR ''F'')] c = hex_digit c"
    by (simp add: hex_class)
qed

lemma hex40_bare: "regex_test hex40 s = (length s = 40 \<and> list_all hex_digit s)"
  unfolding hex40_def regex_test_piece library_hex_class
  by auto

lemma prefixed_hex40_shape: "regex_test prefixed_hex40 s = address_shape s"
proof -
  have "regex_test prefixed_hex40 s =
      (1 \<le> length s \<and> hd s = CHR ''0'' \<and> 1 \<le> length (tl s) \<and> hd (tl s) = CHR ''x''
        \<and> 40 \<le> length (drop 2 s) \<and> list_all hex_digit (take 40 (drop 2 s)) \<and> drop 42 s = [])"
    unfolding prefixed_hex40_def hex40_def regex_test_piece library_hex_class
    apply (cases s; simp add: single_class)
    subgoal for c t
      by (cases t) (auto simp: single_class)
    done
  also have "\<dots> = address_shape s"
    unfolding address_shape_def
    apply (cases s, simp)
    subgoal for c t
      apply (cases t, simp)
      by auto
    done
  finally show ?thesis .
qed

lemma icap_length: "regex_test (icap n) s \<Longrightarrow> length s = n + 4"
  unfolding icap_def regex_test_piece
  by (cases s) auto

lemma hex_digit_not_x: "hex_digit c \<Longrightarrow> c \<noteq> CHR ''x''"
  by (auto simp add: hex_digit_def)

lemma shape_not_bare: "address_shape s \<Longrightarrow> \<not> (length s = 40 \<and> list_all hex_digit s)"
  by (simp add: address_shape_def)

lemma mixed_case_prefix: "mixed_case (CHR ''0'' # CHR ''x'' # s) = mixed_case s"
  by (simp add: mixed_case_def in_class_def)

lemma ethers_plain:
  "address_shape s \<Longrightarrow> \<not> mixed_case s \<Longrightarrow> ethers_isAddress s = Some True"
  by (simp add: ethers_isAddress_def prefixed_hex40_shape address_shape_def)

lemma ethers_checksummed:
  "address_shape s \<Longrightarrow> mixed_case s \<Longrightarrow>
   ethers_isAddress s = Some (getChecksumAddress s = s)"
  by (simp add: ethers_isAddress_def prefixed_hex40_shape address_shape_def)

lemma ethers_bare:
  assumes "length s = 40" and "list_all hex_digit s" and "\<not> mixed_case s"
  shows "ethers_isAddress s = Some True"
proof -
  have "take 2 s \<noteq> ''0x''"
  proof
    assume "take 2 s = ''0x''"
    then have "CHR ''x'' \<in> set (take 2 s)"
      by simp
    then have "CHR ''x'' \<in> set s"
      by (rule in_set_takeD)
    with assms(2) show False
      by (auto simp add: list_all_iff dest: hex_digit_not_x)
  qed
  with assms show ?thesis
    by (simp add: ethers_isAddress_def hex40_bare mixed_case_prefix Let_def)
qed

lemma ethers_refuses:
  assumes "\<not> address_shape s" and "\<not> (length s = 40 \<and> list_all hex_digit s)"
    and "length s \<noteq> 34" and "length s \<noteq> 35"
  shows "ethers_isAddress s = Some False"
proof -
  have "\<not> regex_test (icap 30) s" "\<not> regex_test (icap 31) s"
    using assms(3,4) icap_length [of 30 s] icap_length [of 31 s] by auto
  with assms(1,2) show ?thesis
    by (auto simp add: ethers_isAddress_def prefixed_hex40_shape hex40_bare)
qed

lemma ethers_accepts_only:
  assumes "ethers_isAddress s = Some True"
  shows "address_shape s \<or> (length s = 40 \<and> list_all hex_digit s)
       \<or> ((length s = 34 \<or> length s = 35) \<and> take 2 s = ''XE'')"
proof -
  have x: "take 2 s = ''XE''" if "regex_test (icap n) s" for n
    using that unfolding icap_def regex_test_piece
    by (cases s; simp add: single_class) (cases "tl s"; auto simp add: single_class)
  from assms show ?thesis
    using icap_length [of 30 s] icap_length [of 31 s] x [of 30] x [of 31]
    by (auto simp add: ethers_isAddress_def prefixed_hex40_shape hex40_bare
        split: if_splits)
qed

section \<open>The segments compose to the handler\<close>

lemma steps_idle:
  "step ch req m p = (m, [], p) \<Longrightarrow> steps n ch req (m, tr, p) = (m, tr, p)"
  by (induction n) simp_all

lemma steps_Suc:
  "step ch req m p = (m', acts, p') \<Longrightarrow>
   steps (Suc n) ch req (m, tr, p) = steps n ch req (m', tr @ acts, p')"
  by simp

lemma from_confirm:
  "run_of (steps (Suc n) ch req (m, tr, AwaitConfirm a h)) =
     (case waitResult ch of
        Pending \<Rightarrow> hanging m tr
      | Rejected code \<Rightarrow> replied m tr (handle_error code)
      | Resolved receipt \<Rightarrow>
          (case receipt of
             None \<Rightarrow> replied m tr (handle_error None)
           | Some block \<Rightarrow>
               replied m tr (Response 200 (SuccessBody h (formatEther FAUCET_AMOUNT) block))))"
proof (cases "waitResult ch")
  case (Resolved receipt)
  then show ?thesis
    by (cases receipt) (simp_all add: steps_idle run_of_def reply_of_def replied_def)
next
  case (Rejected code)
  then show ?thesis
    by (simp add: steps_idle run_of_def reply_of_def replied_def)
next
  case Pending
  then have "steps (Suc n) ch req (m, tr, AwaitConfirm a h) = (m, tr, AwaitConfirm a h)"
    by (intro steps_idle) simp
  with Pending show ?thesis
    by (simp add: run_of_def reply_of_def hanging_def)
qed

lemma from_send:
  "run_of (steps (Suc (Suc n)) ch req (m, tr, AwaitSend a)) =
     (case sendResult ch of
        Pending \<Rightarrow> hanging m tr
      | Rejected code \<Rightarrow> replied m tr (handle_error code)
      | Resolved h \<Rightarrow>
          run_of (steps (Suc n) ch req
            (updateAddressCooldown m (clockUpdate ch) a,
             tr @ [SetCooldown (toLowerCase a) (clockUpdate ch), WaitConfirm h],
             AwaitConfirm a h)))"
proof (cases "sendResult ch")
  case (Resolved h)
  then show ?thesis by simp
next
  case (Rejected code)
  then show ?thesis
    by (simp add: steps_idle run_of_def reply_of_def replied_def)
next
  case Pending
  then have "steps (Suc (Suc n)) ch req (m, tr, AwaitSend a) = (m, tr, AwaitSend a)"
    by (intro steps_idle) simp
  with Pending show ?thesis
    by (simp add: run_of_def reply_of_def hanging_def)
qed

lemma from_recipient:
  "run_of (steps (Suc (Suc (Suc n))) ch req (m, tr, AwaitRecipientBalance a)) =
     (case recipientBalance ch of
        Pending \<Rightarrow> hanging m tr
      | Rejected code \<Rightarrow> replied m tr (handle_error code)
      | Resolved recipient \<Rightarrow>
          if recipient > maxRecipientBalance then
            replied m tr (Response 400 (ErrorBody
              ''Recipient address already has sufficient funds''))
          else run_of (steps (Suc (Suc n)) ch req
                 (m, tr @ [SendTransaction a FAUCET_AMOUNT 21000], AwaitSend a)))"
proof (cases "recipientBalance ch")
  case (Resolved recipient)
  then show ?thesis
    by (simp add: steps_idle run_of_def reply_of_def replied_def del: steps.simps(2))
       (simp add: steps_idle run_of_def reply_of_def replied_def)
next
  case (Rejected code)
  then show ?thesis
    by (simp add: steps_idle run_of_def reply_of_def replied_def)
next
  case Pending
  then have "steps (Suc (Suc (Suc n))) ch req (m, tr, AwaitRecipientBalance a)
      = (m, tr, AwaitRecipientBalance a)"
    by (intro steps_idle) simp
  with Pending show ?thesis
    by (simp add: run_of_def reply_of_def hanging_def)
qed

lemma from_faucet:
  "run_of (steps (Suc (Suc (Suc (Suc n)))) ch req (m, tr, AwaitFaucetBalance a)) =
     (case faucetBalance ch of
        Pending \<Rightarrow> hanging m tr
      | Rejected code \<Rightarrow> replied m tr (handle_error code)
      | Resolved balance \<Rightarrow>
          if balance < MIN_BALANCE then
            replied m tr (Response 503 (ErrorBody
              ''Faucet is running low on funds. Please contact the administrator.''))
          else run_of (steps (Suc (Suc (Suc n))) ch req
                 (m, tr @ [GetBalance (Recipient a)], AwaitRecipientBalance a)))"
proof (cases "faucetBalance ch")
  case (Resolved balance)
  show ?thesis
  proof (cases "balance < MIN_BALANCE")
    case True
    with Resolved show ?thesis
      by (simp add: steps_idle run_of_def reply_of_def replied_def)
  next
    case False
    with Resolved have "step ch req m (AwaitFaucetBalance a)
        = (m, [GetBalance (Recipient a)], AwaitRecipientBalance a)"
      by simp
    from steps_Suc [OF this] Resolved False show ?thesis
      by simp
  qed
next
  case (Rejected code)
  then show ?thesis
    by (simp add: steps_idle run_of_def reply_of_def replied_def)
next
  case Pending
  then have "steps (Suc (Suc (Suc (Suc n)))) ch req (m, tr, AwaitFaucetBalance a)
      = (m, tr, AwaitFaucetBalance a)"
    by (intro steps_idle) simp
  with Pending show ?thesis
    by (simp add: run_of_def reply_of_def hanging_def)
qed

lemma faucet_post_after_send:
  "run_of (steps (Suc (Suc n)) ch req (m, tr, AwaitSend a)) =
     (case sendResult ch of
        Pending \<Rightarrow> hanging m tr
      | Rejected code \<Rightarrow> replied m tr (handle_error code)
      | Resolved h \<Rightarrow>
          (case waitResult ch of
             Pending \<Rightarrow> hanging (updateAddressCooldown m (clockUpdate ch) a)
               (tr @ [SetCooldown (toLowerCase a) (clockUpdate ch), WaitConfirm h])
           | Rejected code \<Rightarrow> replied (updateAddressCooldown m (clockUpdate ch) a)
               (tr @ [SetCooldown (toLowerCase a) (clockUpdate ch), WaitConfirm h])
               (handle_error code)
           | Resolved receipt \<Rightarrow>
               (case receipt of
                  None \<Rightarrow> replied (updateAddressCooldown m (clockUpdate ch) a)
                    (tr @ [SetCooldown (toLowerCase a) (clockUpdate ch), WaitConfirm h])
                    (handle_error None)
                | Some block \<Rightarrow> replied (updateAddressCooldown m (clockUpdate ch) a)
                    (tr @ [SetCooldown (toLowerCase a) (clockUpdate ch), WaitConfirm h])
                    (Response 200 (SuccessBody h (formatEther FAUCET_AMOUNT) block)))))"
  unfolding from_send from_confirm ..

lemma steps_faucet_post: "run_of (steps 5 ch req (m, [], Entry)) = faucet_post ch m req"
proof (cases req)
  case None
  then show ?thesis
    by (simp add: numeral_eq_Suc run_of_def reply_of_def faucet_post_def replied_def)
next
  case (Some a)
  show ?thesis
  proof (cases "a = [] \<or> \<not> isValidAddress ch a \<or> \<not> checkAddressCooldown m (clockCheck ch) a")
    case True
    with Some show ?thesis
      by (auto simp add: numeral_eq_Suc run_of_def reply_of_def faucet_post_def replied_def)
  next
    case False
    with Some have "step ch req m Entry = (m, [GetBalance FaucetWallet], AwaitFaucetBalance a)"
      by simp
    then have "steps 5 ch req (m, [], Entry)
        = steps (Suc (Suc (Suc (Suc 0)))) ch req (m, [GetBalance FaucetWallet], AwaitFaucetBalance a)"
      by (simp add: numeral_eq_Suc)
    then have "run_of (steps 5 ch req (m, [], Entry))
        = run_of (steps (Suc (Suc (Suc (Suc 0)))) ch req
            (m, [GetBalance FaucetWallet], AwaitFaucetBalance a))"
      by simp
    also have "\<dots> = faucet_post ch m req"
      unfolding from_faucet from_recipient faucet_post_after_send
      using Some False
      by (simp add: faucet_post_def Let_def cong: outcome.case_cong option.case_cong if_cong)
    finally show ?thesis .
  qed
qed

section \<open>When a transfer is attempted\<close>

lemma not_admitted:
  "\<not> (\<exists>a. admitted ch m req a) \<Longrightarrow>
   store (faucet_post ch m req) = m \<and> trace (faucet_post ch m req) = []"
  by (cases req) (auto simp: faucet_post_def replied_def admitted_def)

lemma admitted_run:
  "admitted ch m req a \<Longrightarrow>
   faucet_post ch m req =
     run_of (steps (Suc (Suc (Suc (Suc 0)))) ch req
       (m, [GetBalance FaucetWallet], AwaitFaucetBalance a))"
  unfolding steps_faucet_post [symmetric]
  by (simp add: admitted_def numeral_eq_Suc)

lemma transfer_attempted:
  "(\<exists>x \<in> set (trace (faucet_post ch m req)). is_transfer x) =
     (\<exists>a fb rb. admitted ch m req a \<and> faucetBalance ch = Resolved fb \<and> MIN_BALANCE \<le> fb
        \<and> recipientBalance ch = Resolved rb \<and> rb \<le> maxRecipientBalance)"
proof (cases "\<exists>a. admitted ch m req a")
  case False
  then show ?thesis using not_admitted [OF False] by auto
next
  case True
  then obtain a where a: "admitted ch m req a" ..
  then have u: "\<And>b. admitted ch m req b = (b = a)" by (auto simp: admitted_def)
  show ?thesis
    unfolding admitted_run [OF a] from_faucet from_recipient faucet_post_after_send u
    by (auto simp: replied_def hanging_def split: outcome.splits option.splits)
qed

lemma admitted_wait [simp]:
  "admitted (ch\<lparr>waitResult := w\<rparr>) m req a = admitted ch m req a"
  by (simp add: admitted_def isValidAddress_def)

lemma handle_error_late: "handle_error code \<notin> set early_rejections"
  by (simp add: handle_error_def early_rejections_def)

lemma handle_error_status:
  "\<exists>status msg. handle_error code = Response status (ErrorBody msg) \<and> status \<in> {500, 502, 503}"
  by (simp add: handle_error_def)

text \<open>
  The cooldown map starts empty and the handler's only write stores a reading of
  \<open>Date.now()\<close>: as long as the clock does not read 0, no entry is 0.
\<close>

lemma store_cases:
  "store (faucet_post ch m req) = m
   \<or> (\<exists>a. store (faucet_post ch m req) = m(toLowerCase a \<mapsto> clockUpdate ch))"
proof (cases "\<exists>a. admitted ch m req a")
  case False
  from not_admitted [OF False] show ?thesis
    by simp
next
  case True
  then obtain a where a: "admitted ch m req a" ..
  show ?thesis
    unfolding admitted_run [OF a] from_faucet from_recipient faucet_post_after_send
    by (auto simp add: replied_def hanging_def updateAddressCooldown_def
        split: outcome.splits option.splits)
qed

lemma timestamps_nonzero:
  assumes "0 \<notin> ran m" and "clockUpdate ch \<noteq> 0"
  shows "0 \<notin> ran (store (faucet_post ch m req))"
  using store_cases [of ch m req] assms
  by (auto simp add: ran_def split: if_splits)

section \<open>Facts about the concrete requests\<close>

lemma no_cooldowns_lookup [simp]: "no_cooldowns k = None"
  by (simp add: no_cooldowns_def)

lemma padded_shape: "address_shape padded_address"
  by (simp add: address_shape_def padded_address_def hex_digit_def)

lemma scenario_shape: "\<not> address_shape scenario_address"
  by (simp add: address_shape_def scenario_address_def)

lemma plain_shape: "address_shape plain_address"
  by (simp add: address_shape_def plain_address_def hex_digit_def)

lemma plain_case: "\<not> mixed_case plain_address"
  by (simp add: mixed_case_def in_class_def plain_address_def)

lemma plain_key: "toLowerCase plain_address = plain_address"
  unfolding plain_address_def by code_simp

lemma plain_nonempty: "plain_address \<noteq> []"
  by (simp add: plain_address_def)

lemma plain_accepted: "ethers_isAddress plain_address = Some True"
  using plain_shape plain_case by (rule ethers_plain)

lemma bare_accepted: "ethers_isAddress bare_address = Some True"
  by (rule ethers_bare)
     (simp_all add: bare_address_def hex_digit_def mixed_case_def in_class_def)

lemma bare_shape: "\<not> address_shape bare_address"
  by (simp add: address_shape_def bare_address_def)

lemma scenario_refused: "ethers_isAddress scenario_address = Some False"
  by (rule ethers_refuses)
     (simp_all add: address_shape_def scenario_address_def hex_digit_def)

lemma word_refused: "ethers_isAddress ''not-an-address'' = Some False"
  by (rule ethers_refuses) (simp_all add: address_shape_def)

lemma scenario_valid: "isValidAddress scenario_chain plain_address"
  by (simp add: isValidAddress_def scenario_chain_def plain_accepted)

lemma second_valid: "isValidAddress second_chain plain_address"
  by (simp add: isValidAddress_def scenario_chain_def second_chain_def plain_accepted)

lemma decimal_zero: "decimal 0 = ''0''"
  by (simp add: decimal.simps digit_char_def) code_simp

lemma amount_fraction:
  "map (\<lambda>i. digit_char (FAUCET_AMOUNT mod ether div 10 ^ (17 - i) mod 10)) [0..<18]
     = ''100000000000000000''"
  by (simp add: FAUCET_AMOUNT_def ether_def upt_rec digit_char_def) code_simp

lemma amount_text: "formatEther FAUCET_AMOUNT = ''0.1''"
  unfolding formatEther_def Let_def amount_fraction
  by (simp add: FAUCET_AMOUNT_def ether_def decimal_zero)

lemma plain_admitted:
  "isAddress ch = ethers_isAddress \<Longrightarrow> m (toLowerCase plain_address) = None \<Longrightarrow>
   admitted ch m (Some plain_address) plain_address"
  by (simp add: admitted_def isValidAddress_def plain_accepted plain_nonempty
      checkAddressCooldown_def)


lemma disbursed:
  assumes "admitted ch m req a"
    and "faucetBalance ch = Resolved fb" and "MIN_BALANCE \<le> fb"
    and "recipientBalance ch = Resolved rb" and "rb \<le> maxRecipientBalance"
    and "sendResult ch = Resolved h"
  shows "store (faucet_post ch m req) = m(toLowerCase a \<mapsto> clockUpdate ch)"
    and "trace (faucet_post ch m req) =
           [GetBalance FaucetWallet, GetBalance (Recipient a),
            SendTransaction a FAUCET_AMOUNT 21000,
            SetCooldown (toLowerCase a) (clockUpdate ch), WaitConfirm h]"
    and "reply (faucet_post ch m req) =
           (case waitResult ch of
              Pending \<Rightarrow> None
            | Rejected code \<Rightarrow> Some (handle_error code)
            | Resolved receipt \<Rightarrow>
                (case receipt of
                   None \<Rightarrow> Some (handle_error None)
                 | Some block \<Rightarrow>
                     Some (Response 200 (SuccessBody h (formatEther FAUCET_AMOUNT) block))))"
  using assms(2-)
  unfolding admitted_run [OF assms(1)] from_faucet from_recipient faucet_post_after_send
  by (simp_all add: replied_def hanging_def updateAddressCooldown_def
      split: outcome.splits option.splits)

section \<open>The claims\<close>

text \<open>
  C1, as amended: for a request that passes address validation, the cooldown check and
  the reserve check, a recipient balance strictly above the ceiling of 5 ETH is rejected
  with status 400 and the error \<open>Recipient address already has sufficient funds\<close>,
  after the two balance queries and without a transfer; a recipient balance at or below
  the ceiling, the ceiling itself included, goes on to the transfer.
\<close>

theorem recipient_ceiling:
  assumes "admitted ch m req a"
    and "faucetBalance ch = Resolved fb" and "MIN_BALANCE \<le> fb"
    and "recipientBalance ch = Resolved rb"
  shows "(maxRecipientBalance < rb \<longrightarrow>
            faucet_post ch m req =
              replied m [GetBalance FaucetWallet, GetBalance (Recipient a)]
                (Response 400 (ErrorBody ''Recipient address already has sufficient funds'')))
       \<and> (rb \<le> maxRecipientBalance \<longrightarrow>
            SendTransaction a FAUCET_AMOUNT 21000 \<in> set (trace (faucet_post ch m req)))
       \<and> maxRecipientBalance = 5 * 10 ^ 18"
  using assms(2-)
  unfolding admitted_run [OF assms(1)] from_faucet from_recipient faucet_post_after_send
  by (auto simp add: replied_def hanging_def maxRecipientBalance_def ether_def
      split: outcome.splits option.splits)

theorem recipient_ceiling_witness:
  "admitted (scenario_chain\<lparr>recipientBalance := Resolved (6 * ether)\<rparr>) no_cooldowns
     (Some plain_address) plain_address
   \<and> faucet_post (scenario_chain\<lparr>recipientBalance := Resolved (6 * ether)\<rparr>) no_cooldowns
       (Some plain_address) =
       replied no_cooldowns [GetBalance FaucetWallet, GetBalance (Recipient plain_address)]
         (Response 400 (ErrorBody ''Recipient address already has sufficient funds''))
   \<and> admitted scenario_chain no_cooldowns (Some plain_address) plain_address
   \<and> SendTransaction plain_address FAUCET_AMOUNT 21000
       \<in> set (trace (faucet_post scenario_chain no_cooldowns (Some plain_address)))"
proof -
  let ?ch = "scenario_chain\<lparr>recipientBalance := Resolved (6 * ether)\<rparr>"
  have a: "admitted ?ch no_cooldowns (Some plain_address) plain_address"
    by (rule plain_admitted) (simp_all add: scenario_chain_def)
  have b: "faucetBalance ?ch = Resolved (10 * ether)" "MIN_BALANCE \<le> 10 * ether"
    "recipientBalance ?ch = Resolved (6 * ether)"
    by (simp_all add: scenario_chain_def MIN_BALANCE_def)
  have a': "admitted scenario_chain no_cooldowns (Some plain_address) plain_address"
    by (rule plain_admitted) (simp_all add: scenario_chain_def)
  have b': "faucetBalance scenario_chain = Resolved (10 * ether)" "MIN_BALANCE \<le> 10 * ether"
    "recipientBalance scenario_chain = Resolved 0"
    by (simp_all add: scenario_chain_def MIN_BALANCE_def)
  show ?thesis
    using a a' recipient_ceiling [OF a b] recipient_ceiling [OF a' b']
    by (simp add: maxRecipientBalance_def ether_def)
qed

text \<open>
  C1 as stated rejects a recipient who holds exactly the ceiling. The handler compares with
  \<open>>\<close>, and that recipient is served.
\<close>

theorem recipient_at_ceiling_served:
  "recipientBalance (scenario_chain\<lparr>recipientBalance := Resolved maxRecipientBalance\<rparr>)
     = Resolved maxRecipientBalance
   \<and> reply (faucet_post (scenario_chain\<lparr>recipientBalance := Resolved maxRecipientBalance\<rparr>)
       no_cooldowns (Some plain_address))
     = Some (Response 200 (SuccessBody ''0xfeed'' ''0.1'' 1234))
   \<and> SendTransaction plain_address FAUCET_AMOUNT 21000
     \<in> set (trace (faucet_post (scenario_chain\<lparr>recipientBalance := Resolved maxRecipientBalance\<rparr>)
       no_cooldowns (Some plain_address)))"
proof -
  let ?ch = "scenario_chain\<lparr>recipientBalance := Resolved maxRecipientBalance\<rparr>"
  have a: "admitted ?ch no_cooldowns (Some plain_address) plain_address"
    by (rule plain_admitted) (simp_all add: scenario_chain_def)
  have b: "faucetBalance ?ch = Resolved (10 * ether)" "MIN_BALANCE \<le> 10 * ether"
    "recipientBalance ?ch = Resolved maxRecipientBalance" "maxRecipientBalance \<le> maxRecipientBalance"
    "sendResult ?ch = Resolved ''0xfeed''"
    by (simp_all add: scenario_chain_def MIN_BALANCE_def)
  show ?thesis
    using disbursed(2,3) [OF a b]
    by (simp add: amount_text scenario_chain_def)
qed

text \<open>
  C2: for every address with a recorded timestamp \<open>t\<close>, a request arriving at time \<open>now\<close>
  passes the cooldown check if and only if \<open>now - t\<close> is at least the window of 3600
  seconds (3600000 milliseconds), the boundary included, and an address without an entry
  always passes. The cooldown map is one the server can hold: it starts empty and its only
  write stores a reading of \<open>Date.now()\<close>, so no entry is 0 (\<open>timestamps_nonzero\<close>).
\<close>

theorem cooldown_window:
  assumes "0 \<notin> ran m"
  shows "(m (toLowerCase a) = None \<longrightarrow> checkAddressCooldown m now a)
       \<and> (\<forall>t. m (toLowerCase a) = Some t \<longrightarrow>
             checkAddressCooldown m now a = (ADDRESS_COOLDOWN \<le> now - t))
       \<and> ADDRESS_COOLDOWN = 3600 * 1000"
proof -
  have "t \<noteq> 0" if "m (toLowerCase a) = Some t" for t
    using assms that by (auto simp add: ran_def)
  then show ?thesis
    by (auto simp add: checkAddressCooldown_def ADDRESS_COOLDOWN_def)
qed

theorem cooldown_window_witness:
  "0 \<notin> ran no_cooldowns
   \<and> checkAddressCooldown no_cooldowns 1700000000000 plain_address
   \<and> 0 \<notin> ran (no_cooldowns(toLowerCase plain_address \<mapsto> 1700000000000))
   \<and> checkAddressCooldown (no_cooldowns(toLowerCase plain_address \<mapsto> 1700000000000))
        1700003600000 plain_address
   \<and> \<not> checkAddressCooldown (no_cooldowns(toLowerCase plain_address \<mapsto> 1700000000000))
        1700003599999 plain_address"
proof -
  have e: "0 \<notin> ran no_cooldowns"
    by (simp add: no_cooldowns_def)
  have f: "0 \<notin> ran (no_cooldowns(toLowerCase plain_address \<mapsto> 1700000000000))"
    by (simp add: no_cooldowns_def)
  show ?thesis
    using e f cooldown_window [OF e, of plain_address 1700000000000]
      cooldown_window [OF f, of plain_address 1700003600000]
      cooldown_window [OF f, of plain_address 1700003599999]
    by simp
qed

text \<open>
  C3, as amended: a transfer is attempted only if the reserve read at check time is at
  least the minimum operating balance of 1.0 ETH; an admitted request that finds the
  reserve strictly below it is rejected with status 503 and no transfer; with the reserve
  exactly at the minimum the reserve check passes and the handler goes on to query the
  recipient.
\<close>

theorem reserve_threshold:
  "((\<exists>x \<in> set (trace (faucet_post ch m req)). is_transfer x) \<longrightarrow>
      (\<exists>fb. faucetBalance ch = Resolved fb \<and> MIN_BALANCE \<le> fb))
   \<and> (admitted ch m req a \<and> faucetBalance ch = Resolved fb \<and> fb < MIN_BALANCE \<longrightarrow>
        faucet_post ch m req = replied m [GetBalance FaucetWallet]
          (Response 503 (ErrorBody
            ''Faucet is running low on funds. Please contact the administrator.'')))
   \<and> (admitted ch m req a \<and> faucetBalance ch = Resolved MIN_BALANCE \<longrightarrow>
        GetBalance (Recipient a) \<in> set (trace (faucet_post ch m req)))
   \<and> MIN_BALANCE = 10 ^ 18"
proof -
  have one: "(\<exists>x \<in> set (trace (faucet_post ch m req)). is_transfer x) \<longrightarrow>
      (\<exists>fb. faucetBalance ch = Resolved fb \<and> MIN_BALANCE \<le> fb)"
    unfolding transfer_attempted by blast
  have two: "faucet_post ch m req = replied m [GetBalance FaucetWallet]
      (Response 503 (ErrorBody
        ''Faucet is running low on funds. Please contact the administrator.''))"
    if "admitted ch m req a" "faucetBalance ch = Resolved fb" "fb < MIN_BALANCE"
    using that(2,3) unfolding admitted_run [OF that(1)] from_faucet by simp
  have three: "GetBalance (Recipient a) \<in> set (trace (faucet_post ch m req))"
    if "admitted ch m req a" "faucetBalance ch = Resolved MIN_BALANCE"
    using that(2)
    unfolding admitted_run [OF that(1)] from_faucet from_recipient faucet_post_after_send
    by (simp add: replied_def hanging_def split: outcome.splits option.splits)
  show ?thesis
    using one two three by (simp add: MIN_BALANCE_def ether_def)
qed

theorem reserve_threshold_witness:
  "admitted (scenario_chain\<lparr>faucetBalance := Resolved (ether div 2)\<rparr>) no_cooldowns
     (Some plain_address) plain_address
   \<and> ether div 2 < MIN_BALANCE
   \<and> faucet_post (scenario_chain\<lparr>faucetBalance := Resolved (ether div 2)\<rparr>) no_cooldowns
       (Some plain_address)
     = replied no_cooldowns [GetBalance FaucetWallet]
         (Response 503 (ErrorBody
           ''Faucet is running low on funds. Please contact the administrator.''))
   \<and> admitted (scenario_chain\<lparr>faucetBalance := Resolved MIN_BALANCE\<rparr>) no_cooldowns
       (Some plain_address) plain_address
   \<and> GetBalance (Recipient plain_address)
       \<in> set (trace (faucet_post (scenario_chain\<lparr>faucetBalance := Resolved MIN_BALANCE\<rparr>)
            no_cooldowns (Some plain_address)))
   \<and> (\<exists>x \<in> set (trace (faucet_post scenario_chain no_cooldowns (Some plain_address))).
        is_transfer x)
   \<and> (\<exists>fb. faucetBalance scenario_chain = Resolved fb \<and> MIN_BALANCE \<le> fb)"
proof -
  let ?ch = "scenario_chain\<lparr>faucetBalance := Resolved (ether div 2)\<rparr>"
  let ?at = "scenario_chain\<lparr>faucetBalance := Resolved MIN_BALANCE\<rparr>"
  have a: "admitted ?ch no_cooldowns (Some plain_address) plain_address"
    by (rule plain_admitted) (simp_all add: scenario_chain_def)
  have b: "faucetBalance ?ch = Resolved (ether div 2)" "ether div 2 < MIN_BALANCE"
    by (simp_all add: scenario_chain_def MIN_BALANCE_def ether_def)
  have a': "admitted ?at no_cooldowns (Some plain_address) plain_address"
    by (rule plain_admitted) (simp_all add: scenario_chain_def)
  have b': "faucetBalance ?at = Resolved MIN_BALANCE"
    by (simp add: scenario_chain_def)
  have a'': "admitted scenario_chain no_cooldowns (Some plain_address) plain_address"
    by (rule plain_admitted) (simp_all add: scenario_chain_def)
  have b'': "faucetBalance scenario_chain = Resolved (10 * ether)" "MIN_BALANCE \<le> 10 * ether"
    "recipientBalance scenario_chain = Resolved 0" "0 \<le> maxRecipientBalance"
    "sendResult scenario_chain = Resolved ''0xfeed''"
    by (simp_all add: scenario_chain_def MIN_BALANCE_def)
  have t: "\<exists>x \<in> set (trace (faucet_post scenario_chain no_cooldowns (Some plain_address))).
      is_transfer x"
    unfolding disbursed(2) [OF a'' b''] by simp
  show ?thesis
    using a b a' b' t
      reserve_threshold [of ?ch no_cooldowns "Some plain_address" plain_address "ether div 2"]
      reserve_threshold [of ?at no_cooldowns "Some plain_address" plain_address 0]
      reserve_threshold [of scenario_chain no_cooldowns "Some plain_address" plain_address 0]
    by simp
qed

text \<open>
  C3 as stated rejects a reserve equal to the threshold. The handler rejects with \<open><\<close>,
  and a reserve of exactly 1.0 ETH is paid out.
\<close>

theorem reserve_at_threshold_served:
  "faucetBalance (scenario_chain\<lparr>faucetBalance := Resolved MIN_BALANCE\<rparr>) = Resolved MIN_BALANCE
   \<and> reply (faucet_post (scenario_chain\<lparr>faucetBalance := Resolved MIN_BALANCE\<rparr>)
       no_cooldowns (Some plain_address))
     = Some (Response 200 (SuccessBody ''0xfeed'' ''0.1'' 1234))
   \<and> SendTransaction plain_address FAUCET_AMOUNT 21000
     \<in> set (trace (faucet_post (scenario_chain\<lparr>faucetBalance := Resolved MIN_BALANCE\<rparr>)
       no_cooldowns (Some plain_address)))"
proof -
  let ?ch = "scenario_chain\<lparr>faucetBalance := Resolved MIN_BALANCE\<rparr>"
  have a: "admitted ?ch no_cooldowns (Some plain_address) plain_address"
    by (rule plain_admitted) (simp_all add: scenario_chain_def)
  have b: "faucetBalance ?ch = Resolved MIN_BALANCE" "MIN_BALANCE \<le> MIN_BALANCE"
    "recipientBalance ?ch = Resolved 0" "0 \<le> maxRecipientBalance"
    "sendResult ?ch = Resolved ''0xfeed''"
    by (simp_all add: scenario_chain_def)
  show ?thesis
    using disbursed(2,3) [OF a b]
    by (simp add: amount_text scenario_chain_def)
qed

text \<open>
  C4, as amended: while the reserve is below the minimum no request leads to a transfer
  and none changes the cooldown map, and the response follows the order of the checks:
  400 for a missing or invalid address, 429 for an address that is cooling down, and 503
  \<open>ReserveLow\<close> for every other request.
\<close>

theorem low_reserve_by_order:
  assumes "faucetBalance ch = Resolved fb" and "fb < MIN_BALANCE"
  shows "(\<forall>x \<in> set (trace (faucet_post ch m req)). \<not> is_transfer x)
       \<and> store (faucet_post ch m req) = m
       \<and> reply (faucet_post ch m req) =
           Some (case req of
                   None \<Rightarrow> Response 400 (ErrorBody ''Address is required'')
                 | Some a \<Rightarrow>
                     if a = [] then Response 400 (ErrorBody ''Address is required'')
                     else if \<not> isValidAddress ch a
                     then Response 400 (ErrorBody ''Invalid Ethereum address'')
                     else if \<not> checkAddressCooldown m (clockCheck ch) a
                     then Response 429 (ErrorBody
                       ''This address has already requested funds recently. Please wait 1 hour.'')
                     else Response 503 (ErrorBody
                       ''Faucet is running low on funds. Please contact the administrator.''))"
  using assms
  by (cases req) (simp_all add: faucet_post_def replied_def)

theorem low_reserve_by_order_witness:
  "faucetBalance (scenario_chain\<lparr>faucetBalance := Resolved (ether div 2)\<rparr>)
     = Resolved (ether div 2)
   \<and> ether div 2 < MIN_BALANCE
   \<and> reply (faucet_post (scenario_chain\<lparr>faucetBalance := Resolved (ether div 2)\<rparr>)
        no_cooldowns (Some plain_address))
     = Some (Response 503 (ErrorBody
         ''Faucet is running low on funds. Please contact the administrator.''))"
proof -
  let ?ch = "scenario_chain\<lparr>faucetBalance := Resolved (ether div 2)\<rparr>"
  have a: "admitted ?ch no_cooldowns (Some plain_address) plain_address"
    by (rule plain_admitted) (simp_all add: scenario_chain_def)
  have b: "faucetBalance ?ch = Resolved (ether div 2)" "ether div 2 < MIN_BALANCE"
    by (simp_all add: scenario_chain_def MIN_BALANCE_def ether_def)
  show ?thesis
    using a b low_reserve_by_order [OF b, of no_cooldowns "Some plain_address"]
    by (simp add: admitted_def)
qed

text \<open>
  C4 as stated answers 503 whatever the address. The reserve is read after the address
  and cooldown checks: a malformed address gets 400 and a cooling-down address 429.
\<close>

theorem low_reserve_malformed_address:
  "faucetBalance (scenario_chain\<lparr>faucetBalance := Resolved (ether div 2)\<rparr>)
     = Resolved (ether div 2)
   \<and> ether div 2 < MIN_BALANCE
   \<and> reply (faucet_post (scenario_chain\<lparr>faucetBalance := Resolved (ether div 2)\<rparr>)
        no_cooldowns (Some ''not-an-address''))
     = Some (Response 400 (ErrorBody ''Invalid Ethereum address''))
   \<and> reply (faucet_post (scenario_chain\<lparr>faucetBalance := Resolved (ether div 2)\<rparr>)
        (no_cooldowns(toLowerCase plain_address \<mapsto> 1699999999000)) (Some plain_address))
     = Some (Response 429 (ErrorBody
         ''This address has already requested funds recently. Please wait 1 hour.''))"
proof -
  let ?ch = "scenario_chain\<lparr>faucetBalance := Resolved (ether div 2)\<rparr>"
  have "\<not> isValidAddress ?ch ''not-an-address''"
    by (simp add: isValidAddress_def scenario_chain_def word_refused)
  moreover have "isValidAddress ?ch plain_address"
    by (simp add: isValidAddress_def scenario_chain_def plain_accepted)
  moreover have "plain_address \<noteq> []"
    by (rule plain_nonempty)
  moreover have "\<not> checkAddressCooldown (no_cooldowns(toLowerCase plain_address \<mapsto> 1699999999000))
      (clockCheck ?ch) plain_address"
    by (simp add: checkAddressCooldown_def scenario_chain_def ADDRESS_COOLDOWN_def)
  ultimately show ?thesis
    by (simp add: faucet_post_def replied_def)
       (simp add: scenario_chain_def MIN_BALANCE_def ether_def)
qed

text \<open>
  C5: whenever a transfer is attempted and the broadcast succeeds, the cooldown entry of
  the address is written right after the broadcast and before the confirmation wait
  begins, and whatever the confirmation does afterwards (succeed, fail or never settle)
  the cooldown map of the finished run holds that entry.
\<close>

theorem cooldown_recorded_at_broadcast:
  assumes "\<exists>x \<in> set (trace (faucet_post ch m req)). is_transfer x"
    and "sendResult ch = Resolved h"
  shows "\<exists>a. req = Some a
       \<and> trace (faucet_post (ch\<lparr>waitResult := w\<rparr>) m req) =
           [GetBalance FaucetWallet, GetBalance (Recipient a),
            SendTransaction a FAUCET_AMOUNT 21000,
            SetCooldown (toLowerCase a) (clockUpdate ch), WaitConfirm h]
       \<and> store (faucet_post (ch\<lparr>waitResult := w\<rparr>) m req) = m(toLowerCase a \<mapsto> clockUpdate ch)
       \<and> step ch req m (AwaitSend a) =
           (m(toLowerCase a \<mapsto> clockUpdate ch),
            [SetCooldown (toLowerCase a) (clockUpdate ch), WaitConfirm h], AwaitConfirm a h)"
proof -
  from assms(1) obtain a fb rb where a: "admitted ch m req a"
    and b: "faucetBalance ch = Resolved fb" "MIN_BALANCE \<le> fb"
      "recipientBalance ch = Resolved rb" "rb \<le> maxRecipientBalance"
    unfolding transfer_attempted by blast
  let ?ch = "ch\<lparr>waitResult := w\<rparr>"
  have a': "admitted ?ch m req a"
    using a by simp
  have b': "faucetBalance ?ch = Resolved fb" "MIN_BALANCE \<le> fb"
    "recipientBalance ?ch = Resolved rb" "rb \<le> maxRecipientBalance"
    "sendResult ?ch = Resolved h"
    using b assms(2) by simp_all
  have "req = Some a"
    using a by (simp add: admitted_def)
  with disbursed(1,2) [OF a' b'] assms(2) show ?thesis
    by (simp add: updateAddressCooldown_def)
qed

theorem cooldown_recorded_at_broadcast_witness:
  "(\<exists>x \<in> set (trace (faucet_post scenario_chain no_cooldowns (Some plain_address))). is_transfer x)
   \<and> store (faucet_post (scenario_chain\<lparr>waitResult := Rejected None\<rparr>) no_cooldowns
        (Some plain_address))
     = no_cooldowns(toLowerCase plain_address \<mapsto> 1700000000500)
   \<and> store (faucet_post (scenario_chain\<lparr>waitResult := Pending\<rparr>) no_cooldowns
        (Some plain_address))
     = no_cooldowns(toLowerCase plain_address \<mapsto> 1700000000500)"
proof -
  have a: "admitted scenario_chain no_cooldowns (Some plain_address) plain_address"
    by (rule plain_admitted) (simp_all add: scenario_chain_def)
  have b: "faucetBalance scenario_chain = Resolved (10 * ether)" "MIN_BALANCE \<le> 10 * ether"
    "recipientBalance scenario_chain = Resolved 0" "0 \<le> maxRecipientBalance"
    "sendResult scenario_chain = Resolved ''0xfeed''"
    by (simp_all add: scenario_chain_def MIN_BALANCE_def)
  have t: "\<exists>x \<in> set (trace (faucet_post scenario_chain no_cooldowns (Some plain_address))).
      is_transfer x"
    unfolding disbursed(2) [OF a b] by simp
  have c: "clockUpdate scenario_chain = 1700000000500"
    by (simp add: scenario_chain_def)
  show ?thesis
    using t cooldown_recorded_at_broadcast [OF t b(5), of "Rejected None"]
      cooldown_recorded_at_broadcast [OF t b(5), of Pending]
    by (simp add: c)
qed

text \<open>
  C6, as amended: after a successful broadcast, a confirmation wait that fails makes the
  endpoint answer with the error response of the \<open>catch\<close> block (503, 502 or 500, without
  the transaction identifier); a wait that never settles leaves the request without any
  response, since the handler sets no timeout; only a confirmed receipt yields the
  success response, with its block number.
\<close>

theorem confirmation_failure_is_error:
  assumes "\<exists>x \<in> set (trace (faucet_post ch m req)). is_transfer x"
    and "sendResult ch = Resolved h"
  shows "(\<forall>code. waitResult ch = Rejected code \<longrightarrow>
            reply (faucet_post ch m req) = Some (handle_error code)
            \<and> (\<exists>status msg. handle_error code = Response status (ErrorBody msg)
                  \<and> status \<in> {500, 502, 503}))
       \<and> (waitResult ch = Pending \<longrightarrow> reply (faucet_post ch m req) = None)
       \<and> (\<forall>block. waitResult ch = Resolved (Some block) \<longrightarrow>
            reply (faucet_post ch m req) =
              Some (Response 200 (SuccessBody h (formatEther FAUCET_AMOUNT) block)))"
proof -
  from assms(1) obtain a fb rb where a: "admitted ch m req a"
    and b: "faucetBalance ch = Resolved fb" "MIN_BALANCE \<le> fb"
      "recipientBalance ch = Resolved rb" "rb \<le> maxRecipientBalance"
    unfolding transfer_attempted by blast
  show ?thesis
    unfolding disbursed(3) [OF a b assms(2)]
    using handle_error_status by simp
qed

theorem confirmation_failure_is_error_witness:
  "(\<exists>x \<in> set (trace (faucet_post (scenario_chain\<lparr>waitResult := Rejected (Some ''NETWORK_ERROR'')\<rparr>)
       no_cooldowns (Some plain_address))). is_transfer x)
   \<and> reply (faucet_post (scenario_chain\<lparr>waitResult := Rejected (Some ''NETWORK_ERROR'')\<rparr>)
        no_cooldowns (Some plain_address))
     = Some (Response 502 (ErrorBody ''Network error. Please try again later.''))
   \<and> (\<exists>x \<in> set (trace (faucet_post (scenario_chain\<lparr>waitResult := Pending\<rparr>)
       no_cooldowns (Some plain_address))). is_transfer x)
   \<and> reply (faucet_post (scenario_chain\<lparr>waitResult := Pending\<rparr>)
        no_cooldowns (Some plain_address)) = None
   \<and> (\<exists>x \<in> set (trace (faucet_post scenario_chain no_cooldowns (Some plain_address))).
        is_transfer x)
   \<and> reply (faucet_post scenario_chain no_cooldowns (Some plain_address))
     = Some (Response 200 (SuccessBody ''0xfeed'' ''0.1'' 1234))"
proof -
  have t: "\<exists>x \<in> set (trace (faucet_post (scenario_chain\<lparr>waitResult := w\<rparr>)
      no_cooldowns (Some plain_address))). is_transfer x" for w
  proof -
    let ?ch = "scenario_chain\<lparr>waitResult := w\<rparr>"
    have a: "admitted ?ch no_cooldowns (Some plain_address) plain_address"
      by (rule plain_admitted) (simp_all add: scenario_chain_def)
    have b: "faucetBalance ?ch = Resolved (10 * ether)" "MIN_BALANCE \<le> 10 * ether"
      "recipientBalance ?ch = Resolved 0" "0 \<le> maxRecipientBalance"
      "sendResult ?ch = Resolved ''0xfeed''"
      by (simp_all add: scenario_chain_def MIN_BALANCE_def)
    show ?thesis
      unfolding disbursed(2) [OF a b] by simp
  qed
  have s: "sendResult (scenario_chain\<lparr>waitResult := w\<rparr>) = Resolved ''0xfeed''" for w
    by (simp add: scenario_chain_def)
  have same: "scenario_chain\<lparr>waitResult := Resolved (Some 1234)\<rparr> = scenario_chain"
    by (simp add: scenario_chain_def)
  have w: "waitResult scenario_chain = Resolved (Some 1234)"
    by (simp add: scenario_chain_def)
  show ?thesis
    using t [of "Rejected (Some ''NETWORK_ERROR'')"] t [of Pending]
      t [of "Resolved (Some 1234)"]
      confirmation_failure_is_error [OF t s, of "Rejected (Some ''NETWORK_ERROR'')"]
      confirmation_failure_is_error [OF t s, of Pending]
      confirmation_failure_is_error [OF t s, of "Resolved (Some 1234)"]
    by (simp add: handle_error_def amount_text same w)
qed

text \<open>
  C6 as stated returns success without a block reference when the confirmation fails. The
  handler answers 500 although the transfer is already broadcast.
\<close>

theorem failed_confirmation_answers_500:
  "sendResult (scenario_chain\<lparr>waitResult := Rejected (Some ''TIMEOUT'')\<rparr>) = Resolved ''0xfeed''
   \<and> SendTransaction plain_address FAUCET_AMOUNT 21000
     \<in> set (trace (faucet_post (scenario_chain\<lparr>waitResult := Rejected (Some ''TIMEOUT'')\<rparr>)
          no_cooldowns (Some plain_address)))
   \<and> reply (faucet_post (scenario_chain\<lparr>waitResult := Rejected (Some ''TIMEOUT'')\<rparr>)
        no_cooldowns (Some plain_address))
     = Some (Response 500 (ErrorBody ''Internal server error''))"
proof -
  let ?ch = "scenario_chain\<lparr>waitResult := Rejected (Some ''TIMEOUT'')\<rparr>"
  have a: "admitted ?ch no_cooldowns (Some plain_address) plain_address"
    by (rule plain_admitted) (simp_all add: scenario_chain_def)
  have b: "faucetBalance ?ch = Resolved (10 * ether)" "MIN_BALANCE \<le> 10 * ether"
    "recipientBalance ?ch = Resolved 0" "0 \<le> maxRecipientBalance"
    "sendResult ?ch = Resolved ''0xfeed''"
    by (simp_all add: scenario_chain_def MIN_BALANCE_def)
  show ?thesis
    using disbursed(2,3) [OF a b] b(5)
    by (simp add: handle_error_def)
qed

text \<open>
  C7 does not hold of the handler. Two requests for the same fresh address are in flight
  together and all other preconditions hold. Resumed in turn, both pass the cooldown
  check, both transfers are sent and both requests are answered 200; the same happens
  when the second handler starts while the first awaits its broadcast. The entry that
  the check reads is written three awaits after the check.
\<close>

theorem twin_requests_both_served:
  "posted (twin_requests ! 0) = Some plain_address
   \<and> posted (twin_requests ! 1) = Some plain_address
   \<and> pcs (exec twin_requests [0, 1] (boot no_cooldowns twin_requests))
     = [AwaitFaucetBalance plain_address, AwaitFaucetBalance plain_address]
   \<and> pcs (exec twin_requests [0, 1, 0, 1, 0, 1, 0, 1, 0, 1] (boot no_cooldowns twin_requests))
     = [Replied (Response 200 (SuccessBody ''0xfeed'' ''0.1'' 1234)),
        Replied (Response 200 (SuccessBody ''0xbeef'' ''0.1'' 1235))]
   \<and> transfers
        (journal (exec twin_requests [0, 1, 0, 1, 0, 1, 0, 1, 0, 1] (boot no_cooldowns twin_requests)))
     = [(0, SendTransaction plain_address FAUCET_AMOUNT 21000),
        (1, SendTransaction plain_address FAUCET_AMOUNT 21000)]
   \<and> pcs (exec twin_requests [0, 0, 0, 1] (boot no_cooldowns twin_requests))
     = [AwaitSend plain_address, AwaitFaucetBalance plain_address]
   \<and> pcs (exec twin_requests [0, 0, 0, 1, 1, 1, 0, 1, 0, 1] (boot no_cooldowns twin_requests))
     = [Replied (Response 200 (SuccessBody ''0xfeed'' ''0.1'' 1234)),
        Replied (Response 200 (SuccessBody ''0xbeef'' ''0.1'' 1235))]
   \<and> transfers
        (journal (exec twin_requests [0, 0, 0, 1, 1, 1, 0, 1, 0, 1] (boot no_cooldowns twin_requests)))
     = [(0, SendTransaction plain_address FAUCET_AMOUNT 21000),
        (1, SendTransaction plain_address FAUCET_AMOUNT 21000)]"
proof -
  have c: "checkAddressCooldown no_cooldowns now plain_address" for now
    by (simp add: checkAddressCooldown_def)
  have f: "faucetBalance scenario_chain = Resolved (10 * ether)"
    "recipientBalance scenario_chain = Resolved 0"
    "sendResult scenario_chain = Resolved ''0xfeed''"
    "waitResult scenario_chain = Resolved (Some 1234)"
    "faucetBalance second_chain = Resolved (10 * ether)"
    "recipientBalance second_chain = Resolved 0"
    "sendResult second_chain = Resolved ''0xbeef''"
    "waitResult second_chain = Resolved (Some 1235)"
    by (simp_all add: scenario_chain_def second_chain_def)
  have b: "\<not> 10 * ether < MIN_BALANCE" "\<not> 0 > maxRecipientBalance"
    by (simp_all add: MIN_BALANCE_def)
  show ?thesis
    by (simp add: exec_def boot_def turn_def twin_requests_def transfers_def
        scenario_valid second_valid plain_nonempty c f b amount_text)
qed

text \<open>
  C8, as amended: the validator of the form returns true for exactly the strings of the
  fixed address shape, the prefix \<open>0x\<close> followed by exactly 40 hexadecimal digits, each
  digit in either letter case. The validator of the server returns the verdict of
  \<open>ethers.isAddress\<close>, and false when that throws. By the rules of the library it accepts
  every string of the shape whose letters are not of mixed case, and a string of the shape
  with letters of mixed case exactly when it is its own checksum spelling; it also accepts
  40 hexadecimal digits without the prefix (not of mixed case), and outside the shape it
  accepts nothing but 40 hexadecimal digits without prefix and strings of 34 or 35
  characters that begin with \<open>XE\<close>.
\<close>

theorem address_validators:
  "App_isValidAddress s = address_shape s
   \<and> isValidAddress ch s = (isAddress ch s = Some True)
   \<and> (isAddress ch = ethers_isAddress \<longrightarrow>
        (address_shape s \<and> \<not> mixed_case s \<longrightarrow> isValidAddress ch s)
        \<and> (address_shape s \<and> mixed_case s \<longrightarrow>
             isValidAddress ch s = (getChecksumAddress s = s))
        \<and> (length s = 40 \<and> list_all hex_digit s \<and> \<not> mixed_case s \<longrightarrow> isValidAddress ch s)
        \<and> (isValidAddress ch s \<and> \<not> address_shape s \<longrightarrow>
             (length s = 40 \<and> list_all hex_digit s)
             \<or> ((length s = 34 \<or> length s = 35) \<and> take 2 s = ''XE'')))"
proof -
  have server: "isValidAddress ch s = (isAddress ch s = Some True)"
    by (simp add: isValidAddress_def split: option.splits)
  have library: "isValidAddress ch s = (ethers_isAddress s = Some True)"
    if "isAddress ch = ethers_isAddress"
    using that server by simp
  show ?thesis
    using server ethers_plain [of s] ethers_checksummed [of s] ethers_bare [of s]
      ethers_accepts_only [of s]
    by (auto simp add: App_isValidAddress_def address_pattern_shape library)
qed

theorem address_validators_witness:
  "App_isValidAddress plain_address
   \<and> App_isValidAddress padded_address
   \<and> \<not> App_isValidAddress []
   \<and> \<not> App_isValidAddress ''not-an-address''
   \<and> \<not> App_isValidAddress bare_address
   \<and> \<not> App_isValidAddress (''0X'' @ bare_address)
   \<and> \<not> App_isValidAddress scenario_address
   \<and> isAddress scenario_chain = ethers_isAddress
   \<and> address_shape plain_address \<and> \<not> mixed_case plain_address
   \<and> isValidAddress scenario_chain plain_address
   \<and> length bare_address = 40 \<and> list_all hex_digit bare_address \<and> \<not> mixed_case bare_address
   \<and> isValidAddress scenario_chain bare_address
   \<and> \<not> isValidAddress scenario_chain ''not-an-address''
   \<and> \<not> isValidAddress scenario_chain scenario_address"
proof -
  have l: "isAddress scenario_chain = ethers_isAddress"
    by (simp add: scenario_chain_def)
  have b: "length bare_address = 40" "list_all hex_digit bare_address" "\<not> mixed_case bare_address"
    by (simp_all add: bare_address_def hex_digit_def mixed_case_def in_class_def)
  have x: "\<not> address_shape []" "\<not> address_shape ''not-an-address''"
    "\<not> address_shape (''0X'' @ bare_address)"
    by (simp_all add: address_shape_def bare_address_def)
  show ?thesis
    using l b x plain_shape plain_case padded_shape bare_shape scenario_shape
      address_validators [of plain_address scenario_chain]
      address_validators [of padded_address scenario_chain]
      address_validators [of "[]" scenario_chain]
      address_validators [of "''not-an-address''" scenario_chain]
      address_validators [of bare_address scenario_chain]
      address_validators [of "''0X'' @ bare_address" scenario_chain]
      address_validators [of scenario_address scenario_chain]
    by (simp add: word_refused scenario_refused plain_accepted bare_accepted)
qed

text \<open>
  C8 as stated has the validator refuse every string without the prefix. The server
  accepts the 40 hexadecimal digits of an address without it.
\<close>

theorem bare_address_accepted:
  "isAddress scenario_chain bare_address = ethers_isAddress bare_address
   \<and> isValidAddress scenario_chain bare_address
   \<and> \<not> address_shape bare_address
   \<and> take 2 bare_address \<noteq> ''0x''"
  using bare_accepted bare_shape
  by (simp add: isValidAddress_def scenario_chain_def) (simp add: bare_address_def)

text \<open>
  C9, as amended: for a request with an address that the validator accepts, a reserve of
  10 ETH, a recipient balance of 0, no prior cooldown entry, and a broadcast and a
  confirmation that both succeed, the response is 200 with amount \<open>0.1\<close>.
\<close>

theorem scenario_disbursement:
  assumes "a \<noteq> []" and "isValidAddress ch a" and "m (toLowerCase a) = None"
    and "faucetBalance ch = Resolved (10 * ether)" and "recipientBalance ch = Resolved 0"
    and "sendResult ch = Resolved h" and "waitResult ch = Resolved (Some block)"
  shows "reply (faucet_post ch m (Some a)) = Some (Response 200 (SuccessBody h ''0.1'' block))"
proof -
  have a: "admitted ch m (Some a) a"
    using assms(1-3) by (simp add: admitted_def checkAddressCooldown_def)
  have b: "MIN_BALANCE \<le> 10 * ether" "0 \<le> maxRecipientBalance"
    by (simp_all add: MIN_BALANCE_def)
  show ?thesis
    unfolding disbursed(3) [OF a assms(4) b(1) assms(5) b(2) assms(6)]
    using assms(7) by (simp add: amount_text)
qed

theorem scenario_disbursement_witness:
  "plain_address \<noteq> [] \<and> isValidAddress scenario_chain plain_address
   \<and> reply (faucet_post scenario_chain no_cooldowns (Some plain_address))
     = Some (Response 200 (SuccessBody ''0xfeed'' ''0.1'' 1234))"
proof -
  have a: "plain_address \<noteq> []" "isValidAddress scenario_chain plain_address"
    "no_cooldowns (toLowerCase plain_address) = None"
    by (simp_all add: plain_nonempty scenario_valid)
  have b: "faucetBalance scenario_chain = Resolved (10 * ether)"
    "recipientBalance scenario_chain = Resolved 0"
    "sendResult scenario_chain = Resolved ''0xfeed''"
    "waitResult scenario_chain = Resolved (Some 1234)"
    by (simp_all add: scenario_chain_def)
  show ?thesis
    using a(1,2) scenario_disbursement [where m = no_cooldowns, OF a b] by simp
qed

text \<open>
  C9 as stated uses an address of 38 hexadecimal digits. Neither the form nor the server
  accepts it: the response is 400 \<open>Invalid Ethereum address\<close>.
\<close>

theorem scenario_address_invalid:
  "length scenario_address = 40
   \<and> \<not> App_isValidAddress scenario_address
   \<and> faucet_post scenario_chain no_cooldowns (Some scenario_address)
     = replied no_cooldowns [] (Response 400 (ErrorBody ''Invalid Ethereum address''))"
proof -
  have "\<not> isValidAddress scenario_chain scenario_address"
    by (simp add: isValidAddress_def scenario_chain_def scenario_refused)
  moreover have "scenario_address \<noteq> []" "length scenario_address = 40"
    by (simp_all add: scenario_address_def)
  ultimately show ?thesis
    using scenario_shape
    by (simp add: faucet_post_def App_isValidAddress_def address_pattern_shape)
qed

text \<open>
  C10: a request turned away with one of the five rejections (missing address, invalid
  address, cooldown active, reserve low, recipient already funded) leaves the cooldown map
  as it was and attempts no transfer; more generally, every run without a transfer leaves
  the cooldown map unchanged.
\<close>

theorem rejection_keeps_cooldowns:
  "(reply (faucet_post ch m req) \<in> Some ` set early_rejections \<longrightarrow>
      store (faucet_post ch m req) = m
      \<and> (\<forall>x \<in> set (trace (faucet_post ch m req)). \<not> is_transfer x))
   \<and> ((\<forall>x \<in> set (trace (faucet_post ch m req)). \<not> is_transfer x) \<longrightarrow>
      store (faucet_post ch m req) = m)"
proof (cases "\<exists>a. admitted ch m req a")
  case False
  from not_admitted [OF False] show ?thesis
    by simp
next
  case True
  then obtain a where a: "admitted ch m req a" ..
  show ?thesis
    using handle_error_late
    unfolding admitted_run [OF a] from_faucet from_recipient faucet_post_after_send
    by (auto simp add: replied_def hanging_def image_iff split: outcome.splits option.splits)
       (simp_all add: early_rejections_def)
qed

theorem rejection_keeps_cooldowns_witness:
  "reply (faucet_post scenario_chain (no_cooldowns(''0xabc'' \<mapsto> 5)) (Some ''not-an-address''))
     \<in> Some ` set early_rejections
   \<and> store (faucet_post scenario_chain (no_cooldowns(''0xabc'' \<mapsto> 5)) (Some ''not-an-address''))
     = no_cooldowns(''0xabc'' \<mapsto> 5)"
proof -
  have "\<not> isValidAddress scenario_chain ''not-an-address''"
    by (simp add: isValidAddress_def scenario_chain_def word_refused)
  then have r: "reply (faucet_post scenario_chain (no_cooldowns(''0xabc'' \<mapsto> 5)) (Some ''not-an-address''))
      \<in> Some ` set early_rejections"
    by (simp add: faucet_post_def replied_def early_rejections_def)
  show ?thesis
    using r rejection_keeps_cooldowns [of scenario_chain "no_cooldowns(''0xabc'' \<mapsto> 5)"
      "Some ''not-an-address''"]
    by blast
qed

end
